theory Spec2Isabelle
  imports Main "HOL-Library.Word"
begin

unbundle bit_operations_syntax

section \<open>Values of the JavaScript program\<close>

text \<open>
  The buffer \<open>uint8\<close> is a \<open>Uint8Array\<close>: a list of bytes. A JavaScript string is a
  sequence of UTF-16 code units, here natural numbers; \<open>str\<close> writes an ASCII literal.
  Offsets are JavaScript Numbers that only ever hold integers far below \<open>2^53\<close> in
  magnitude (every step adds a 32-bit integer and 12), so they are modelled by \<open>int\<close>.
\<close>

type_synonym byte = "8 word"
type_synonym jsstring = "nat list"

definition str :: "string \<Rightarrow> jsstring" where
  "str s = map of_char s"

text \<open>
  \<open>uint8[pos]\<close>: an index outside the array reads \<open>undefined\<close> (here \<open>None\<close>);
  a typed array never throws on an index.
\<close>

definition byte_at :: "byte list \<Rightarrow> int \<Rightarrow> byte option" where
  "byte_at uint8 pos =
     (if 0 \<le> pos \<and> pos < int (length uint8) then Some (uint8 ! nat pos) else None)"

text \<open>
  The operands of \<open><<\<close> and \<open>|\<close> are converted by ToInt32, which sends \<open>undefined\<close>
  to 0; both operators yield a signed 32-bit integer.
\<close>

definition ToInt32 :: "byte option \<Rightarrow> 32 word" where
  "ToInt32 v = (case v of None \<Rightarrow> 0 | Some b \<Rightarrow> ucast b)"

text \<open>
  \<open>const readUint32 = (pos) => (uint8[pos] << 24) | (uint8[pos + 1] << 16)
     | (uint8[pos + 2] << 8) | uint8[pos + 3];\<close>
  The result is the value of a JavaScript int32, read by \<open>sint\<close>.
\<close>

definition readUint32 :: "byte list \<Rightarrow> int \<Rightarrow> int" where
  "readUint32 uint8 pos =
     sint (push_bit 24 (ToInt32 (byte_at uint8 pos))
           OR push_bit 16 (ToInt32 (byte_at uint8 (pos + 1)))
           OR push_bit 8 (ToInt32 (byte_at uint8 (pos + 2)))
           OR ToInt32 (byte_at uint8 (pos + 3)))"

text \<open>
  \<open>String.fromCharCode\<close> converts each argument by ToUint16: \<open>undefined\<close> gives the
  code unit 0.
\<close>

definition ToUint16 :: "byte option \<Rightarrow> nat" where
  "ToUint16 v = (case v of None \<Rightarrow> 0 | Some b \<Rightarrow> unat b)"

definition chunk_type :: "byte list \<Rightarrow> int \<Rightarrow> jsstring" where
  "chunk_type uint8 offset =
     [ToUint16 (byte_at uint8 (offset + 4)), ToUint16 (byte_at uint8 (offset + 5)),
      ToUint16 (byte_at uint8 (offset + 6)), ToUint16 (byte_at uint8 (offset + 7))]"

text \<open>
  \<open>TypedArray.prototype.slice(start, end)\<close>: a negative index counts from the end,
  both are clamped to the array, and an \<open>end\<close> left out is the length.
\<close>

definition relative_index :: "nat \<Rightarrow> int \<Rightarrow> int" where
  "relative_index len i = (if i < 0 then max (int len + i) 0 else min i (int len))"

definition slice :: "'a list \<Rightarrow> int \<Rightarrow> int option \<Rightarrow> 'a list" where
  "slice xs start end =
     (let k = relative_index (length xs) start;
          final = (case end of None \<Rightarrow> int (length xs)
                   | Some e \<Rightarrow> relative_index (length xs) e)
      in take (nat (final - k)) (drop (nat k) xs))"

text \<open>\<open>indexOf\<close>: the first index holding the value, or \<open>-1\<close>.\<close>

primrec indexOf :: "'a list \<Rightarrow> 'a \<Rightarrow> int" where
  "indexOf [] v = - 1"
| "indexOf (x # xs) v =
     (if x = v then 0 else (let i = indexOf xs v in if i < 0 then - 1 else i + 1))"

section \<open>The platform's text decoder\<close>

text \<open>
  \<open>new TextDecoder().decode(bytes)\<close> is the UTF-8 decoder of the Encoding Standard in
  replacement mode: it never throws, an ill-formed sequence yields U+FFFD and the byte
  that broke the sequence is read again. The arguments are the decoder's variables
  \<open>code point\<close>, \<open>bytes seen\<close>, \<open>bytes needed\<close>, \<open>lower boundary\<close> and
  \<open>upper boundary\<close>; the result is the list of code points.
\<close>

function utf8_decode :: "nat \<Rightarrow> nat \<Rightarrow> nat \<Rightarrow> nat \<Rightarrow> nat \<Rightarrow> byte list \<Rightarrow> nat list" where
  "utf8_decode cp seen needed lower upper [] = (if needed \<noteq> 0 then [0xFFFD] else [])"
| "utf8_decode cp seen needed lower upper (b # bs) =
     (if needed = 0 then
        (if unat b \<le> 0x7F then unat b # utf8_decode 0 0 0 0x80 0xBF bs
         else if 0xC2 \<le> unat b \<and> unat b \<le> 0xDF
           then utf8_decode (unat b AND 0x1F) 0 1 0x80 0xBF bs
         else if 0xE0 \<le> unat b \<and> unat b \<le> 0xEF
           then utf8_decode (unat b AND 0xF) 0 2
                  (if unat b = 0xE0 then 0xA0 else 0x80) (if unat b = 0xED then 0x9F else 0xBF) bs
         else if 0xF0 \<le> unat b \<and> unat b \<le> 0xF4
           then utf8_decode (unat b AND 0x7) 0 3
                  (if unat b = 0xF0 then 0x90 else 0x80) (if unat b = 0xF4 then 0x8F else 0xBF) bs
         else 0xFFFD # utf8_decode 0 0 0 0x80 0xBF bs)
      else if \<not> (lower \<le> unat b \<and> unat b \<le> upper)
        then 0xFFFD # utf8_decode 0 0 0 0x80 0xBF (b # bs)
      else if seen + 1 \<noteq> needed
        then utf8_decode (push_bit 6 cp OR (unat b AND 0x3F)) (seen + 1) needed 0x80 0xBF bs
      else (push_bit 6 cp OR (unat b AND 0x3F)) # utf8_decode 0 0 0 0x80 0xBF bs)"
  by pat_completeness auto
termination
  by (relation "measure (\<lambda>(cp, seen, needed, lower, upper, bs).
        2 * length bs + (if needed = 0 then 0 else 1))") auto

text \<open>A code point above U+FFFF is two UTF-16 code units in the resulting string.\<close>

definition code_units :: "nat \<Rightarrow> jsstring" where
  "code_units cp =
     (if cp < 0x10000 then [cp]
      else [0xD800 + (cp - 0x10000) div 0x400, 0xDC00 + (cp - 0x10000) mod 0x400])"

text \<open>
  A decoder made by \<open>new TextDecoder()\<close> has \<open>ignoreBOM\<close> false: a byte order mark
  decoded first is dropped from the output.
\<close>

definition TextDecoder_decode :: "byte list \<Rightarrow> jsstring" where
  "TextDecoder_decode bytes =
     concat (map code_units
       (case utf8_decode 0 0 0 0x80 0xBF bytes of
          [] \<Rightarrow> []
        | c # cs \<Rightarrow> if c = 0xFEFF then cs else c # cs))"

section \<open>parsePngTexts\<close>

text \<open>
  \<open>texts\<close> is a plain object used as a dictionary; the map holds its own properties.
  \<open>texts[keyword] = text\<close> creates or overwrites an own property, except for the key
  \<open>__proto__\<close>: that assignment reaches the accessor inherited from
  \<open>Object.prototype\<close>, whose setter ignores a value that is neither an object nor
  null, so no property is stored.
\<close>

type_synonym texts = "jsstring \<rightharpoonup> jsstring"

definition assign :: "texts \<Rightarrow> jsstring \<Rightarrow> jsstring \<Rightarrow> texts" where
  "assign texts keyword text =
     (if keyword = str ''__proto__'' then texts else texts(keyword \<mapsto> text))"

text \<open>\<open>dataEnd = dataStart + length\<close> with \<open>dataStart = offset + 8\<close>.\<close>

definition dataEnd :: "byte list \<Rightarrow> int \<Rightarrow> int" where
  "dataEnd uint8 offset = (offset + 8) + readUint32 uint8 offset"

text \<open>
  One pass of the loop body, for the chunk whose header is at \<open>offset\<close>:
  \<^verbatim>\<open>
  if (type === "tEXt") {
      const data = uint8.slice(dataStart, dataEnd);
      const nullIdx = data.indexOf(0);
      if (nullIdx >= 0) {
          const keyword = new TextDecoder().decode(data.slice(0, nullIdx));
          const text = new TextDecoder().decode(data.slice(nullIdx + 1));
          texts[keyword] = text;
      }
  }
  \<close>
  \<open>chunk_data\<close> is \<open>data\<close>, \<open>chunk_entry\<close> the pair \<open>(keyword, text)\<close> when the
  assignment is reached, and \<open>chunk_texts\<close> the object \<open>texts\<close> after the pass.
\<close>

definition chunk_data :: "byte list \<Rightarrow> int \<Rightarrow> byte list" where
  "chunk_data uint8 offset = slice uint8 (offset + 8) (Some (dataEnd uint8 offset))"

definition chunk_entry :: "byte list \<Rightarrow> int \<Rightarrow> (jsstring \<times> jsstring) option" where
  "chunk_entry uint8 offset =
     (if chunk_type uint8 offset = str ''tEXt'' then
        (let data = chunk_data uint8 offset;
             nullIdx = indexOf data 0
         in if nullIdx \<ge> 0 then
              (let keyword = TextDecoder_decode (slice data 0 (Some nullIdx));
                   text = TextDecoder_decode (slice data (nullIdx + 1) None)
               in Some (keyword, text))
            else None)
      else None)"

definition chunk_texts :: "byte list \<Rightarrow> int \<Rightarrow> texts \<Rightarrow> texts" where
  "chunk_texts uint8 offset texts =
     (case chunk_entry uint8 offset of
        Some (keyword, text) \<Rightarrow> assign texts keyword text
      | None \<Rightarrow> texts)"

text \<open>
  The loop
  \<^verbatim>\<open>
  while (offset + 8 <= uint8.length) {
      ...
      if (dataEnd > uint8.length) break;
      ...
      offset = dataEnd + 4; // skip CRC
  }
  return texts;
  \<close>
  Nothing in the source bounds the number of passes, so the loop is a partial function:
  \<open>None\<close> means that it never returns.
\<close>

partial_function (option) parsePngTexts_loop :: "byte list \<Rightarrow> int \<Rightarrow> texts \<Rightarrow> texts option" where
  "parsePngTexts_loop uint8 offset texts =
     (if offset + 8 \<le> int (length uint8) then
        (if dataEnd uint8 offset > int (length uint8) then Some texts
         else parsePngTexts_loop uint8 (dataEnd uint8 offset + 4) (chunk_texts uint8 offset texts))
      else Some texts)"

definition parsePngTexts :: "byte list \<Rightarrow> texts option" where
  "parsePngTexts uint8 = parsePngTexts_loop uint8 8 Map.empty"

text \<open>
  The chunks the loop passes. \<open>walk uint8 offset os offset'\<close>: started at \<open>offset\<close>,
  the loop runs its body to the end for the chunks whose headers are at the offsets
  \<open>os\<close>, in this order, and is then about to test its condition at \<open>offset'\<close>.
  A chunk at which the loop leaves (by its condition or by \<open>break\<close>) is not in \<open>os\<close>.
\<close>

inductive walk :: "byte list \<Rightarrow> int \<Rightarrow> int list \<Rightarrow> int \<Rightarrow> bool" for uint8 :: "byte list" where
  walk_here: "walk uint8 offset [] offset"
| walk_chunk:
    "offset + 8 \<le> int (length uint8) \<Longrightarrow> \<not> dataEnd uint8 offset > int (length uint8) \<Longrightarrow>
     walk uint8 (dataEnd uint8 offset + 4) os offset' \<Longrightarrow>
     walk uint8 offset (offset # os) offset'"

text \<open>The loop leaves at \<open>offset\<close>: its condition fails or the \<open>break\<close> is taken.\<close>

definition stops :: "byte list \<Rightarrow> int \<Rightarrow> bool" where
  "stops uint8 offset \<longleftrightarrow>
     \<not> offset + 8 \<le> int (length uint8) \<or> dataEnd uint8 offset > int (length uint8)"

code_pred walk .

section \<open>The callers of parsePngTexts\<close>

text \<open>
  \<open>new Error(`No '${key}' metadata found in PNG.`)\<close>, the error of both callers when
  they find no metadata.
\<close>

datatype load_error = NoMetadata jsstring

text \<open>
  \<open>readPngWorkflow\<close>, from the bytes \<open>arr\<close> that the file reader delivers:
  \<^verbatim>\<open>
  const texts = parsePngTexts(arr);
  const key = which === "prompt" ? "prompt" : "workflow";
  if (!(key in texts)) {
      reject(new Error(`No '${key}' metadata found in PNG.`));
      return;
  }
  resolve(texts[key]);
  \<close>
  \<open>Inl\<close> is the rejection, \<open>Inr\<close> the resolved value. Neither \<open>prompt\<close> nor
  \<open>workflow\<close> is a property of \<open>Object.prototype\<close>, so \<open>key in texts\<close> tests the own
  properties.
\<close>

definition readPngWorkflow :: "byte list \<Rightarrow> jsstring \<Rightarrow> (load_error + jsstring) option" where
  "readPngWorkflow arr which =
     (case parsePngTexts arr of
        None \<Rightarrow> None
      | Some texts \<Rightarrow>
          (let key = (if which = str ''prompt'' then str ''prompt'' else str ''workflow'')
           in case texts key of
                None \<Rightarrow> Some (Inl (NoMetadata key))
              | Some v \<Rightarrow> Some (Inr v)))"

text \<open>
  The click handler of \<open>loadWorkflowFromRemotePng\<close>, from the fetched bytes \<open>arr\<close> up to
  the value handed to \<open>JSON.parse\<close>:
  \<^verbatim>\<open>
  const texts = parsePngTexts(arr);
  const raw = texts.workflow;
  if (!raw) {
      throw new Error("No 'workflow' metadata found in PNG.");
  }
  \<close>
  \<open>!raw\<close> holds for \<open>undefined\<close> and for the empty string.
\<close>

definition remote_raw :: "byte list \<Rightarrow> (load_error + jsstring) option" where
  "remote_raw arr =
     (case parsePngTexts arr of
        None \<Rightarrow> None
      | Some texts \<Rightarrow>
          (case texts (str ''workflow'') of
             None \<Rightarrow> Some (Inl (NoMetadata (str ''workflow'')))
           | Some raw \<Rightarrow>
               if raw = [] then Some (Inl (NoMetadata (str ''workflow''))) else Some (Inr raw)))"

section \<open>The modularized copy\<close>

text \<open>
  The second copy of the file builds \<open>texts\<close> from the chunk list that \<open>parseChunks\<close>
  returns, with \<open>decodeTextChunk\<close> and \<open>decodeZtextChunk\<close>; all three are imported
  from the host's module \<open>/scripts/png.js\<close>, which is no part of this repository. The
  two decoders are parameters here: a call returns an object with a keyword and a text
  (\<open>Inr\<close>) or throws (\<open>Inl\<close>). A chunk is its \<open>name\<close> and its \<open>data\<close>.
  \<^verbatim>\<open>
  for (const chunk of chunks) {
      if (chunk.name === "tEXt") {
          const txt = mod.decodeTextChunk(chunk.data);
          texts[txt.keyword] = txt.text;
      } else if (chunk.name === "zTXt") {
          try {
              const txt = mod.decodeZtextChunk(chunk.data);
              texts[txt.keyword] = txt.text;
          } catch (err) {
              console.warn("[HistoryLoader] failed to decode zTXt", err);
          }
      }
  }
  \<close>
  An exception of \<open>decodeTextChunk\<close> leaves the loop; one of \<open>decodeZtextChunk\<close> is
  caught and the loop goes on.
\<close>

type_synonym chunk = "jsstring \<times> byte list"

fun collect_texts ::
  "(byte list \<Rightarrow> 'e + jsstring \<times> jsstring) \<Rightarrow> (byte list \<Rightarrow> 'e + jsstring \<times> jsstring) \<Rightarrow>
   texts \<Rightarrow> chunk list \<Rightarrow> 'e + texts" where
  "collect_texts decodeTextChunk decodeZtextChunk texts [] = Inr texts"
| "collect_texts decodeTextChunk decodeZtextChunk texts ((name, data) # chunks) =
     (if name = str ''tEXt'' then
        (case decodeTextChunk data of
           Inl err \<Rightarrow> Inl err
         | Inr (keyword, text) \<Rightarrow>
             collect_texts decodeTextChunk decodeZtextChunk (assign texts keyword text) chunks)
      else if name = str ''zTXt'' then
        (case decodeZtextChunk data of
           Inl err \<Rightarrow> collect_texts decodeTextChunk decodeZtextChunk texts chunks
         | Inr (keyword, text) \<Rightarrow>
             collect_texts decodeTextChunk decodeZtextChunk (assign texts keyword text) chunks)
      else collect_texts decodeTextChunk decodeZtextChunk texts chunks)"

section \<open>The text-chunk encoder and decoder of the specification\<close>

text \<open>
  \<open>encodeTextChunk\<close> is not among the sources: the writer is the repository's
  embedding node. It is modelled from the specification, over strings that are lists of
  Unicode code points. The decoding of a \<open>tEXt\<close> data field is in the sources, inside
  \<open>parsePngTexts\<close>; \<open>decodeTextChunk\<close> below is that code.
\<close>

text \<open>
  Modelled from the spec: the "4-byte big-endian" fields of the encoder, which is absent
  from the sources; the most significant byte comes first.
\<close>

definition be32 :: "32 word \<Rightarrow> byte list" where
  "be32 w = [ucast (drop_bit 24 w), ucast (drop_bit 16 w), ucast (drop_bit 8 w), ucast w]"

text \<open>
  Modelled from the spec: one shift step of the CRC-32 of the encoder, which is absent
  from the sources: "standard PNG CRC, polynomial 0xEDB88320".
\<close>

definition crc_shift :: "32 word \<Rightarrow> 32 word" where
  "crc_shift c = (if bit c 0 then drop_bit 1 c XOR 0xEDB88320 else drop_bit 1 c)"

text \<open>
  Modelled from the spec: the CRC-32 register after one more byte, taken by exclusive or
  and eight shift steps; absent from the sources like the encoder.
\<close>

definition crc_byte :: "32 word \<Rightarrow> byte \<Rightarrow> 32 word" where
  "crc_byte c b = (crc_shift ^^ 8) (c XOR ucast b)"

text \<open>
  Modelled from the spec: the CRC-32 of the encoder, absent from the sources,
  "initialized per the PNG specification": the register starts with all bits set and is
  complemented at the end.
\<close>

definition crc32 :: "byte list \<Rightarrow> 32 word" where
  "crc32 bs = foldl crc_byte 0xFFFFFFFF bs XOR 0xFFFFFFFF"

text \<open>
  Modelled from the spec: the "UTF-8-encoded text" of the encoder, absent from the
  sources. One code point gives one to four bytes.
\<close>

definition utf8_encode_cp :: "nat \<Rightarrow> byte list" where
  "utf8_encode_cp c =
     (if c < 0x80 then [of_nat c]
      else if c < 0x800 then [of_nat (0xC0 + c div 0x40), of_nat (0x80 + c mod 0x40)]
      else if c < 0x10000 then
        [of_nat (0xE0 + c div 0x1000), of_nat (0x80 + c div 0x40 mod 0x40),
         of_nat (0x80 + c mod 0x40)]
      else
        [of_nat (0xF0 + c div 0x40000), of_nat (0x80 + c div 0x1000 mod 0x40),
         of_nat (0x80 + c div 0x40 mod 0x40), of_nat (0x80 + c mod 0x40)])"

text \<open>
  Modelled from the spec: the UTF-8 encoding of a whole text, for the encoder that is
  absent from the sources.
\<close>

definition utf8_encode :: "nat list \<Rightarrow> byte list" where
  "utf8_encode t = concat (map utf8_encode_cp t)"

text \<open>
  Modelled from the spec: the code points of a "UTF-8 string", the argument of the absent
  encoder: those that UTF-8 encodes, up to U+10FFFF without the surrogates.
\<close>

definition scalar_value :: "nat \<Rightarrow> bool" where
  "scalar_value c \<longleftrightarrow> c < 0xD800 \<or> (0xDFFF < c \<and> c < 0x110000)"

text \<open>
  Modelled from the spec: the data field that the absent \<open>encodeTextChunk\<close> writes,
  "the keyword bytes, one zero separator byte, the text bytes". A keyword character is
  one byte.
\<close>

definition text_data :: "nat list \<Rightarrow> nat list \<Rightarrow> byte list" where
  "text_data keyword text = map of_nat keyword @ [0] @ utf8_encode text"

text \<open>
  Modelled from the spec: \<open>encodeTextChunk\<close>, absent from the sources: "4-byte
  big-endian length (= keyword length + 1 + UTF-8-encoded text length), the 4-byte ASCII
  type tEXt, the keyword bytes, one zero separator byte, the text bytes, and a trailing
  CRC-32 computed over type + data".
\<close>

definition encodeTextChunk :: "nat list \<Rightarrow> nat list \<Rightarrow> byte list" where
  "encodeTextChunk keyword text =
     be32 (of_nat (length keyword + 1 + length (utf8_encode text)))
     @ map of_char ''tEXt''
     @ text_data keyword text
     @ be32 (crc32 (map of_char ''tEXt'' @ text_data keyword text))"

text \<open>
  Modelled from the spec: the \<open>data\<close> of the chunk that the absent encoder returns,
  what lies between the 8 bytes of length and type and the 4 bytes of the CRC.
\<close>

definition data_field :: "byte list \<Rightarrow> byte list" where
  "data_field chunk = take (length chunk - 12) (drop 8 chunk)"

text \<open>
  \<open>decodeTextChunk\<close>: the source has no function of this name; its decoding of the
  data of a \<open>tEXt\<close> chunk is these lines of \<open>parsePngTexts\<close>, here as a function of
  \<open>data\<close>:
  \<^verbatim>\<open>
  const nullIdx = data.indexOf(0);
  if (nullIdx >= 0) {
      const keyword = new TextDecoder().decode(data.slice(0, nullIdx));
      const text = new TextDecoder().decode(data.slice(nullIdx + 1));
      ...
  }
  \<close>
  The result is the pair of JavaScript strings, or nothing when the test fails.
\<close>

definition decodeTextChunk :: "byte list \<Rightarrow> (jsstring \<times> jsstring) option" where
  "decodeTextChunk data =
     (let nullIdx = indexOf data 0
      in if nullIdx \<ge> 0 then
           (let keyword = TextDecoder_decode (slice data 0 (Some nullIdx));
                text = TextDecoder_decode (slice data (nullIdx + 1) None)
            in Some (keyword, text))
         else None)"

section \<open>Example buffers\<close>

definition ascii :: "string \<Rightarrow> byte list" where
  "ascii s = map of_char s"

definition signature :: "byte list" where
  "signature = [0x89, 0x50, 0x4E, 0x47, 0x0D, 0x0A, 0x1A, 0x0A]"

text \<open>A \<open>tEXt\<close> chunk \<open>a = bc\<close> and the \<open>IEND\<close> chunk.\<close>

definition png_two_chunks :: "byte list" where
  "png_two_chunks =
     signature
     @ [0x00, 0x00, 0x00, 0x04] @ ascii ''tEXt'' @ ascii ''a'' @ [0x00] @ ascii ''bc''
       @ [0xB7, 0x6E, 0x7F, 0xE9]
     @ [0x00, 0x00, 0x00, 0x00] @ ascii ''IEND'' @ [0xAE, 0x42, 0x60, 0x82]"

text \<open>The same \<open>tEXt\<close> chunk, then a chunk that declares 9 bytes of which 2 are there.\<close>

definition png_truncated :: "byte list" where
  "png_truncated =
     signature
     @ [0x00, 0x00, 0x00, 0x04] @ ascii ''tEXt'' @ ascii ''a'' @ [0x00] @ ascii ''bc''
       @ [0xB7, 0x6E, 0x7F, 0xE9]
     @ [0x00, 0x00, 0x00, 0x09] @ ascii ''tEXt'' @ ascii ''w'' @ [0x00]"

text \<open>A \<open>tEXt\<close> chunk whose data \<open>abc\<close> has no zero byte.\<close>

definition png_no_separator :: "byte list" where
  "png_no_separator =
     signature
     @ [0x00, 0x00, 0x00, 0x03] @ ascii ''tEXt'' @ ascii ''abc'' @ [0xFC, 0x85, 0x9B, 0x88]"

text \<open>A \<open>tEXt\<close> chunk whose data is a zero byte and \<open>x\<close>, then \<open>IEND\<close>.\<close>

definition png_empty_keyword :: "byte list" where
  "png_empty_keyword =
     signature
     @ [0x00, 0x00, 0x00, 0x02] @ ascii ''tEXt'' @ [0x00] @ ascii ''x''
       @ [0xB2, 0xFD, 0x27, 0x82]
     @ [0x00, 0x00, 0x00, 0x00] @ ascii ''IEND'' @ [0xAE, 0x42, 0x60, 0x82]"

text \<open>The signature and a chunk header whose length field is \<open>FF FF FF F4\<close>.\<close>

definition png_negative_length :: "byte list" where
  "png_negative_length = signature @ [0xFF, 0xFF, 0xFF, 0xF4] @ ascii ''IDAT''"

text \<open>Sixteen bytes that are no PNG: the field at offset 8 is \<open>FF FF FF E8\<close>.\<close>

definition gif_garbage :: "byte list" where
  "gif_garbage = ascii ''GIF89a'' @ [0x01, 0x00] @ [0xFF, 0xFF, 0xFF, 0xE8] @ ascii ''tEXt''"

text \<open>Two \<open>tEXt\<close> chunks with the keyword \<open>__proto__\<close>, texts \<open>a\<close> and \<open>b\<close>, then \<open>IEND\<close>.\<close>

definition png_proto_twice :: "byte list" where
  "png_proto_twice =
     signature
     @ [0x00, 0x00, 0x00, 0x0B] @ ascii ''tEXt'' @ ascii ''__proto__'' @ [0x00] @ ascii ''a''
       @ [0x6F, 0xB7, 0x6E, 0xCC]
     @ [0x00, 0x00, 0x00, 0x0B] @ ascii ''tEXt'' @ ascii ''__proto__'' @ [0x00] @ ascii ''b''
       @ [0xF6, 0xBE, 0x3F, 0x76]
     @ [0x00, 0x00, 0x00, 0x00] @ ascii ''IEND'' @ [0xAE, 0x42, 0x60, 0x82]"

text \<open>Two \<open>tEXt\<close> chunks with the keyword \<open>workflow\<close>, texts \<open>{}\<close> and \<open>[]\<close>, then \<open>IEND\<close>.\<close>

definition png_workflow_twice :: "byte list" where
  "png_workflow_twice =
     signature
     @ [0x00, 0x00, 0x00, 0x0B] @ ascii ''tEXt'' @ ascii ''workflow'' @ [0x00] @ ascii ''{}''
       @ [0xD6, 0xA8, 0x57, 0xEB]
     @ [0x00, 0x00, 0x00, 0x0B] @ ascii ''tEXt'' @ ascii ''workflow'' @ [0x00] @ ascii ''[]''
       @ [0x78, 0x42, 0x53, 0x81]
     @ [0x00, 0x00, 0x00, 0x00] @ ascii ''IEND'' @ [0xAE, 0x42, 0x60, 0x82]"

text \<open>
  A \<open>zTXt\<close> chunk: keyword \<open>a\<close>, the separator, compression method 0 and the zlib
  stream of \<open>hello\<close>; then \<open>IEND\<close>.
\<close>

definition png_zTXt :: "byte list" where
  "png_zTXt =
     signature
     @ [0x00, 0x00, 0x00, 0x10] @ ascii ''zTXt'' @ ascii ''a'' @ [0x00, 0x00]
       @ [0x78, 0x9C, 0xCB, 0x48, 0xCD, 0xC9, 0xC9, 0x07, 0x00, 0x06, 0x2C, 0x02, 0x15]
       @ [0x86, 0x3B, 0x75, 0x53]
     @ [0x00, 0x00, 0x00, 0x00] @ ascii ''IEND'' @ [0xAE, 0x42, 0x60, 0x82]"

text \<open>A \<open>tEXt\<close> chunk with the keyword \<open>workflow\<close> and an empty text, then \<open>IEND\<close>.\<close>

definition png_empty_workflow :: "byte list" where
  "png_empty_workflow =
     signature
     @ [0x00, 0x00, 0x00, 0x09] @ ascii ''tEXt'' @ ascii ''workflow'' @ [0x00]
       @ [0x20, 0x9C, 0x02, 0x19]
     @ [0x00, 0x00, 0x00, 0x00] @ ascii ''IEND'' @ [0xAE, 0x42, 0x60, 0x82]"

text \<open>No text chunk at all.\<close>

definition png_iend_only :: "byte list" where
  "png_iend_only =
     signature @ [0x00, 0x00, 0x00, 0x00] @ ascii ''IEND'' @ [0xAE, 0x42, 0x60, 0x82]"

text \<open>
  The signature, a chunk header whose length field is \<open>FF FF FF FF\<close>, three more
  bytes, and a \<open>tEXt\<close> chunk \<open>m = n\<close> that begins at offset 19.
\<close>

definition png_overlong :: "byte list" where
  "png_overlong =
     signature
     @ [0xFF, 0xFF, 0xFF, 0xFF] @ ascii ''IDAT'' @ [0x00, 0x00, 0x00]
     @ [0x00, 0x00, 0x00, 0x03] @ ascii ''tEXt'' @ ascii ''m'' @ [0x00] @ ascii ''n''
       @ [0xDC, 0xE5, 0x17, 0x74]"

text \<open>
  The signature, a chunk header whose length field is \<open>FF FF FF FC\<close>, and a \<open>tEXt\<close>
  chunk \<open>k = v\<close> right behind the header, at offset 16.
\<close>

definition png_short_step :: "byte list" where
  "png_short_step =
     signature
     @ [0xFF, 0xFF, 0xFF, 0xFC] @ ascii ''IDAT''
     @ [0x00, 0x00, 0x00, 0x03] @ ascii ''tEXt'' @ ascii ''k'' @ [0x00] @ ascii ''v''
       @ [0xCB, 0x04, 0xF3, 0x90]"

section \<open>Running the loop\<close>

lemma loop_exit:
  "\<not> offset + 8 \<le> int (length uint8) \<Longrightarrow> parsePngTexts_loop uint8 offset texts = Some texts"
  by (subst parsePngTexts_loop.simps) simp

lemma loop_break:
  "dataEnd uint8 offset > int (length uint8) \<Longrightarrow> parsePngTexts_loop uint8 offset texts = Some texts"
  by (subst parsePngTexts_loop.simps) simp

lemma loop_stops:
  "stops uint8 offset \<Longrightarrow> parsePngTexts_loop uint8 offset texts = Some texts"
  unfolding stops_def using loop_exit loop_break by blast

lemma loop_next:
  "offset + 8 \<le> int (length uint8) \<Longrightarrow> \<not> dataEnd uint8 offset > int (length uint8) \<Longrightarrow>
   parsePngTexts_loop uint8 offset texts =
   parsePngTexts_loop uint8 (dataEnd uint8 offset + 4) (chunk_texts uint8 offset texts)"
  by (subst parsePngTexts_loop.simps) simp

lemma loop_walk:
  "walk uint8 offset os offset' \<Longrightarrow>
   parsePngTexts_loop uint8 offset texts =
   parsePngTexts_loop uint8 offset' (foldl (\<lambda>t c. chunk_texts uint8 c t) texts os)"
proof (induction arbitrary: texts rule: walk.induct)
  case (walk_here offset)
  show ?case by simp
next
  case (walk_chunk offset os offset')
  have "parsePngTexts_loop uint8 offset texts =
        parsePngTexts_loop uint8 (dataEnd uint8 offset + 4) (chunk_texts uint8 offset texts)"
    using walk_chunk.hyps(1,2) by (rule loop_next)
  also have "\<dots> = parsePngTexts_loop uint8 offset'
        (foldl (\<lambda>t c. chunk_texts uint8 c t) (chunk_texts uint8 offset texts) os)"
    by (rule walk_chunk.IH)
  finally show ?case by simp
qed

lemma parsePngTexts_walk:
  assumes "walk uint8 8 os offset" and "stops uint8 offset"
  shows "parsePngTexts uint8 = Some (foldl (\<lambda>t c. chunk_texts uint8 c t) Map.empty os)"
  unfolding parsePngTexts_def loop_walk [OF assms(1)] using assms(2) by (rule loop_stops)

lemma walk_offset:
  "walk uint8 offset os offset' \<Longrightarrow>
   offset' = offset + (\<Sum>c\<leftarrow>os. 12 + readUint32 uint8 c)"
  by (induction rule: walk.induct) (simp_all add: dataEnd_def)

lemma walk_Cons_start: "walk uint8 offset (c # os) offset' \<Longrightarrow> c = offset"
  by (erule walk.cases) simp_all

lemma walk_append:
  "walk uint8 offset (as @ bs) offset' \<Longrightarrow>
   \<exists>mid. walk uint8 offset as mid \<and> walk uint8 mid bs offset'"
proof (induction as arbitrary: offset)
  case Nil
  then show ?case using walk_here by auto
next
  case (Cons a as)
  from Cons.prems have step:
    "a = offset" "offset + 8 \<le> int (length uint8)" "\<not> dataEnd uint8 offset > int (length uint8)"
    "walk uint8 (dataEnd uint8 offset + 4) (as @ bs) offset'"
    by (auto elim: walk.cases)
  from Cons.IH [OF step(4)] obtain mid where
    "walk uint8 (dataEnd uint8 offset + 4) as mid" "walk uint8 mid bs offset'" by blast
  then show ?case using step(1-3) walk_chunk by blast
qed

section \<open>The body of the loop\<close>

lemma indexOf_ge: "- 1 \<le> indexOf xs v"
  by (induction xs) (auto simp: Let_def)

lemma indexOf_absent: "v \<notin> set xs \<Longrightarrow> indexOf xs v = - 1"
  by (induction xs) (auto simp: Let_def)

lemma indexOf_first: "v \<notin> set k \<Longrightarrow> indexOf (k @ v # t) v = int (length k)"
  by (induction k) (auto simp: Let_def)

lemma indexOf_present: "v \<in> set xs \<Longrightarrow> 0 \<le> indexOf xs v"
  by (induction xs) (auto simp: Let_def)

lemma slice_before: "slice (k @ v # t) 0 (Some (int (length k))) = k"
  by (simp add: slice_def relative_index_def)

lemma slice_after: "slice (k @ v # t) (int (length k) + 1) None = t"
  by (simp add: slice_def relative_index_def nat_add_distrib)

lemma chunk_entry_split:
  assumes "chunk_type uint8 offset = str ''tEXt''"
    and "chunk_data uint8 offset = k @ 0 # t" and "0 \<notin> set k"
  shows "chunk_entry uint8 offset = Some (TextDecoder_decode k, TextDecoder_decode t)"
  using assms by (simp add: chunk_entry_def indexOf_first slice_before slice_after)

lemma chunk_entry_no_separator:
  "0 \<notin> set (chunk_data uint8 offset) \<Longrightarrow> chunk_entry uint8 offset = None"
  by (simp add: chunk_entry_def indexOf_absent)

lemma chunk_entry_other_type:
  "chunk_type uint8 offset \<noteq> str ''tEXt'' \<Longrightarrow> chunk_entry uint8 offset = None"
  by (simp add: chunk_entry_def)

lemma chunk_data_well_formed:
  assumes "0 \<le> offset" and "0 \<le> readUint32 uint8 offset"
    and "dataEnd uint8 offset \<le> int (length uint8)"
  shows "chunk_data uint8 offset =
         take (nat (readUint32 uint8 offset)) (drop (nat (offset + 8)) uint8)"
  using assms by (simp add: chunk_data_def slice_def relative_index_def dataEnd_def)

lemma TextDecoder_decode_empty: "TextDecoder_decode [] = []"
  by (simp add: TextDecoder_decode_def)

lemma chunk_texts_stores:
  "chunk_entry uint8 c = Some (keyword, text) \<Longrightarrow> keyword \<noteq> str ''__proto__'' \<Longrightarrow>
   chunk_texts uint8 c texts keyword = Some text"
  by (simp add: chunk_texts_def assign_def)

lemma chunk_texts_other:
  "\<forall>t. chunk_entry uint8 c \<noteq> Some (keyword, t) \<Longrightarrow>
   chunk_texts uint8 c texts keyword = texts keyword"
  by (auto simp: chunk_texts_def assign_def split: option.splits)

lemma foldl_chunk_texts_other:
  "\<forall>d\<in>set ds. \<forall>t. chunk_entry uint8 d \<noteq> Some (keyword, t) \<Longrightarrow>
   foldl (\<lambda>t c. chunk_texts uint8 c t) texts ds keyword = texts keyword"
  by (induction ds arbitrary: texts) (simp_all add: chunk_texts_other)

text \<open>
  Last write wins, for every keyword but \<open>__proto__\<close>: when a walk that ends has passed
  a \<open>tEXt\<close> chunk with this keyword and no later chunk carries it, the returned object
  binds the keyword to the text of that chunk, whatever earlier chunks stored.
\<close>

lemma last_write_wins:
  assumes "walk uint8 8 os offset" and "stops uint8 offset"
    and "os = before @ c # after"
    and "chunk_entry uint8 c = Some (keyword, text)"
    and "keyword \<noteq> str ''__proto__''"
    and "\<forall>d\<in>set after. \<forall>t. chunk_entry uint8 d \<noteq> Some (keyword, t)"
  shows "\<exists>texts. parsePngTexts uint8 = Some texts \<and> texts keyword = Some text"
proof -
  have "foldl (\<lambda>t c. chunk_texts uint8 c t) Map.empty os keyword = Some text"
    unfolding assms(3) using assms(4,5,6)
    by (simp add: foldl_chunk_texts_other chunk_texts_stores)
  with parsePngTexts_walk [OF assms(1,2)] show ?thesis by simp
qed

text \<open>
  \<open>readPngWorkflow\<close> keeps an absent keyword and an empty text apart: it rejects
  exactly when the key is no property of \<open>texts\<close>, and resolves with the text, empty
  or not, when it is.
\<close>

lemma readPngWorkflow_not_found_iff:
  assumes "parsePngTexts arr = Some texts"
    and "key = (if which = str ''prompt'' then str ''prompt'' else str ''workflow'')"
  shows "readPngWorkflow arr which = Some (Inl (NoMetadata key)) \<longleftrightarrow> texts key = None"
    and "readPngWorkflow arr which = Some (Inr v) \<longleftrightarrow> texts key = Some v"
  using assms by (auto simp: readPngWorkflow_def Let_def split: option.splits)

text \<open>
  The loop of the modularized copy has a branch for \<open>zTXt\<close>: it hands the chunk's data
  to the imported decoder, assigns what the call returns, and goes on with \<open>texts\<close> as
  it was when the call throws.
\<close>

lemma collect_texts_zTXt:
  "collect_texts decodeT decodeZ texts ((str ''zTXt'', data) # chunks) =
   (case decodeZ data of
      Inl err \<Rightarrow> collect_texts decodeT decodeZ texts chunks
    | Inr (keyword, text) \<Rightarrow> collect_texts decodeT decodeZ (assign texts keyword text) chunks)"
proof -
  have "str ''zTXt'' \<noteq> str ''tEXt''" by (simp add: str_def)
  then show ?thesis by simp
qed

section \<open>Walks that end and walks that do not\<close>

lemma walk_start_cases:
  "walk uint8 offset os offset' \<Longrightarrow> (os = [] \<and> offset' = offset) \<or> offset \<in> set os"
  by (erule walk.cases) auto

lemma walk_members:
  "walk uint8 offset os offset' \<Longrightarrow> c \<in> set os \<Longrightarrow>
   c + 8 \<le> int (length uint8) \<and> \<not> dataEnd uint8 c > int (length uint8) \<and>
   (dataEnd uint8 c + 4 \<in> set os \<or> dataEnd uint8 c + 4 = offset')"
proof (induction rule: walk.induct)
  case (walk_here offset)
  then show ?case by simp
next
  case (walk_chunk offset os offset')
  show ?case
  proof (cases "c = offset")
    case True
    with walk_start_cases [OF walk_chunk.hyps(3)] walk_chunk.hyps(1,2)
    show ?thesis by auto
  next
    case False
    with walk_chunk.prems have "c \<in> set os" by simp
    from walk_chunk.IH [OF this] show ?thesis by auto
  qed
qed

lemma cyclic_walk_diverges:
  assumes cyc: "walk uint8 offset os offset" and ne: "os \<noteq> []"
  shows "parsePngTexts_loop uint8 offset texts = None"
proof -
  from walk_start_cases [OF cyc] ne have start: "offset \<in> set os" by auto
  have inv: "c + 8 \<le> int (length uint8) \<and> \<not> dataEnd uint8 c > int (length uint8) \<and>
             dataEnd uint8 c + 4 \<in> set os" if "c \<in> set os" for c
    using walk_members [OF cyc that] start by auto
  have "u = uint8 \<longrightarrow> c \<notin> set os" if "parsePngTexts_loop u c t = Some y" for u c t y
    using that
  proof (induction rule: parsePngTexts_loop.raw_induct [rotated 1, consumes 1])
    case (1 f u c t y)
    show ?case
    proof (intro impI notI)
      assume u: "u = uint8" and c: "c \<in> set os"
      from inv [OF c] 1(2) u have "f uint8 (dataEnd uint8 c + 4) (chunk_texts uint8 c t) = Some y"
        by simp
      from 1(1) [OF this] inv [OF c] show False by simp
    qed
  qed
  with start show ?thesis by (cases "parsePngTexts_loop uint8 offset texts") auto
qed

text \<open>
  The loop ends when no length from the starting offset on is read as negative, as for
  every buffer whose bytes from offset 8 on are below \<open>0x80\<close>.
\<close>

lemma loop_terminates:
  assumes nonneg: "\<And>c. offset \<le> c \<Longrightarrow> 0 \<le> readUint32 uint8 c"
  shows "\<exists>r. parsePngTexts_loop uint8 offset texts = Some r"
  using nonneg
proof (induction "nat (int (length uint8) - offset)" arbitrary: offset texts rule: less_induct)
  case less
  show ?case
  proof (cases "stops uint8 offset")
    case True
    then show ?thesis by (simp add: loop_stops)
  next
    case False
    then have go: "offset + 8 \<le> int (length uint8)" "\<not> dataEnd uint8 offset > int (length uint8)"
      by (simp_all add: stops_def)
    have up: "offset < dataEnd uint8 offset + 4"
      using less.prems [of offset] by (simp add: dataEnd_def)
    with go have "nat (int (length uint8) - (dataEnd uint8 offset + 4)) < nat (int (length uint8) - offset)"
      by linarith
    moreover have "0 \<le> readUint32 uint8 c" if "dataEnd uint8 offset + 4 \<le> c" for c
      using that up less.prems [of c] by simp
    ultimately have "\<exists>r. parsePngTexts_loop uint8 (dataEnd uint8 offset + 4)
        (chunk_texts uint8 offset texts) = Some r"
      by (rule less.hyps)
    then show ?thesis by (simp add: loop_next [OF go])
  qed
qed

lemma parsePngTexts_terminates:
  "(\<And>c. 8 \<le> c \<Longrightarrow> 0 \<le> readUint32 uint8 c) \<Longrightarrow> \<exists>r. parsePngTexts uint8 = Some r"
  unfolding parsePngTexts_def by (rule loop_terminates)

lemma returns_walk:
  assumes "parsePngTexts_loop uint8 offset texts = Some r"
  shows "\<exists>os offset'. walk uint8 offset os offset' \<and> stops uint8 offset' \<and>
           r = foldl (\<lambda>t c. chunk_texts uint8 c t) texts os"
  using assms
proof (induction rule: parsePngTexts_loop.raw_induct [rotated 1, consumes 1])
  case (1 f u c t y)
  show ?case
  proof (cases "stops u c")
    case True
    with 1(2) have "y = t" by (auto simp: stops_def split: if_splits)
    with True walk_here [of u c] show ?thesis by fastforce
  next
    case False
    then have go: "c + 8 \<le> int (length u)" "\<not> dataEnd u c > int (length u)"
      by (simp_all add: stops_def)
    with 1(2) have "f u (dataEnd u c + 4) (chunk_texts u c t) = Some y" by simp
    from 1(1) [OF this] obtain os offset' where
      w: "walk u (dataEnd u c + 4) os offset'" "stops u offset'"
        "y = foldl (\<lambda>t c. chunk_texts u c t) (chunk_texts u c t) os"
      by blast
    from walk_chunk [OF go w(1)] w(2,3) show ?thesis
      by (intro exI [of _ "c # os"] exI [of _ offset']) simp
  qed
qed

section \<open>UTF-8: decoding what the encoder wrote\<close>

lemma and_low_bits:
  "(x::nat) AND 0x3F = x mod 64" "(x::nat) AND 0x1F = x mod 32"
  "(x::nat) AND 0xF = x mod 16" "(x::nat) AND 0x7 = x mod 8"
proof -
  have m: "(0x3F::nat) = mask 6" "(0x1F::nat) = mask 5" "(0xF::nat) = mask 4" "(0x7::nat) = mask 3"
    by (simp_all add: mask_eq_exp_minus_1)
  show "(x::nat) AND 0x3F = x mod 64" "(x::nat) AND 0x1F = x mod 32"
    "(x::nat) AND 0xF = x mod 16" "(x::nat) AND 0x7 = x mod 8"
    unfolding m by (simp_all flip: take_bit_eq_mask add: take_bit_eq_mod)
qed

lemma shift_or: "y < 64 \<Longrightarrow> push_bit 6 a OR y = a * 64 + (y::nat)"
proof -
  assume y: "y < 64"
  then have t: "take_bit 6 y = y" by (simp add: take_bit_nat_eq_self)
  have "push_bit 6 a AND take_bit 6 y = 0"
    by (rule bit_eqI) (simp add: bit_simps)
  then have "push_bit 6 a + take_bit 6 y = push_bit 6 a OR take_bit 6 y"
    by (rule disjunctive_add_eq_or)
  with t show ?thesis by (simp add: push_bit_eq_mult)
qed

text \<open>One step of the decoder on a byte given by its value.\<close>

lemma lead_ascii:
  "unat b \<le> 0x7F \<Longrightarrow> utf8_decode cp seen 0 lower upper (b # bs) = unat b # utf8_decode 0 0 0 0x80 0xBF bs"
  by simp

lemma lead_two:
  "0xC2 \<le> unat b \<Longrightarrow> unat b \<le> 0xDF \<Longrightarrow>
   utf8_decode cp seen 0 lower upper (b # bs) = utf8_decode (unat b mod 32) 0 1 0x80 0xBF bs"
  by (simp add: and_low_bits)

lemma lead_three:
  "0xE0 \<le> unat b \<Longrightarrow> unat b \<le> 0xEF \<Longrightarrow>
   utf8_decode cp seen 0 lower upper (b # bs) =
   utf8_decode (unat b mod 16) 0 2 (if unat b = 0xE0 then 0xA0 else 0x80)
     (if unat b = 0xED then 0x9F else 0xBF) bs"
  by (simp add: and_low_bits)

lemma lead_four:
  "0xF0 \<le> unat b \<Longrightarrow> unat b \<le> 0xF4 \<Longrightarrow>
   utf8_decode cp seen 0 lower upper (b # bs) =
   utf8_decode (unat b mod 8) 0 3 (if unat b = 0xF0 then 0x90 else 0x80)
     (if unat b = 0xF4 then 0x8F else 0xBF) bs"
  by (simp add: and_low_bits)

lemma continuation_more:
  "needed \<noteq> 0 \<Longrightarrow> lower \<le> unat b \<Longrightarrow> unat b \<le> upper \<Longrightarrow> seen + 1 \<noteq> needed \<Longrightarrow>
   utf8_decode cp seen needed lower upper (b # bs) =
   utf8_decode (cp * 64 + unat b mod 64) (seen + 1) needed 0x80 0xBF bs"
  by (simp add: and_low_bits shift_or)

lemma continuation_last:
  "needed \<noteq> 0 \<Longrightarrow> lower \<le> unat b \<Longrightarrow> unat b \<le> upper \<Longrightarrow> seen + 1 = needed \<Longrightarrow>
   utf8_decode cp seen needed lower upper (b # bs) =
   (cp * 64 + unat b mod 64) # utf8_decode 0 0 0 0x80 0xBF bs"
  by (simp add: and_low_bits shift_or)





lemma strip_general: "a < n \<Longrightarrow> (k * n + a) mod n = (a::nat)"
  by simp

lemma strip_marker:
  "a < 32 \<Longrightarrow> (0xC0 + a) mod 32 = (a::nat)"
  "a < 16 \<Longrightarrow> (0xE0 + a) mod 16 = (a::nat)"
  "a < 8 \<Longrightarrow> (0xF0 + a) mod 8 = (a::nat)"
  "a < 64 \<Longrightarrow> (0x80 + a) mod 64 = (a::nat)"
  using strip_general [of a 32 6] strip_general [of a 16 14] strip_general [of a 8 30]
    strip_general [of a 64 2]
  by simp_all

lemma two_bytes:
  assumes "unat b1 = 0xC0 + a" "unat b2 = 0x80 + b" "2 \<le> a" "a < 32" "b < 64"
  shows "utf8_decode 0 0 0 0x80 0xBF (b1 # b2 # rest) = (a * 64 + b) # utf8_decode 0 0 0 0x80 0xBF rest"
proof -
  have m: "unat b1 mod 32 = a" "unat b2 mod 64 = b"
    using assms by (simp_all add: strip_marker)
  have "utf8_decode 0 0 0 0x80 0xBF (b1 # b2 # rest) =
        utf8_decode (unat b1 mod 32) 0 1 0x80 0xBF (b2 # rest)"
    by (rule lead_two) (use assms in simp_all)
  also have "\<dots> = (unat b1 mod 32 * 64 + unat b2 mod 64) # utf8_decode 0 0 0 0x80 0xBF rest"
    by (rule continuation_last) (use assms in simp_all)
  finally show ?thesis unfolding m .
qed

lemma three_bytes:
  assumes "unat b1 = 0xE0 + a" "unat b2 = 0x80 + b" "unat b3 = 0x80 + d"
    and "a < 16" "b < 64" "d < 64" "a = 0 \<longrightarrow> 32 \<le> b" "a = 13 \<longrightarrow> b < 32"
  shows "utf8_decode 0 0 0 0x80 0xBF (b1 # b2 # b3 # rest) =
         ((a * 64 + b) * 64 + d) # utf8_decode 0 0 0 0x80 0xBF rest"
proof -
  have m: "unat b1 mod 16 = a" "unat b2 mod 64 = b" "unat b3 mod 64 = d"
    using assms by (simp_all add: strip_marker)
  have "utf8_decode 0 0 0 0x80 0xBF (b1 # b2 # b3 # rest) =
        utf8_decode (unat b1 mod 16) 0 2 (if unat b1 = 0xE0 then 0xA0 else 0x80)
          (if unat b1 = 0xED then 0x9F else 0xBF) (b2 # b3 # rest)"
    by (rule lead_three) (use assms in simp_all)
  also have "\<dots> = utf8_decode (unat b1 mod 16 * 64 + unat b2 mod 64) (0 + 1) 2 0x80 0xBF (b3 # rest)"
    by (rule continuation_more) (use assms in auto)
  also have "\<dots> = ((unat b1 mod 16 * 64 + unat b2 mod 64) * 64 + unat b3 mod 64)
        # utf8_decode 0 0 0 0x80 0xBF rest"
    by (rule continuation_last) (use assms in simp_all)
  finally show ?thesis unfolding m .
qed

lemma four_bytes:
  assumes "unat b1 = 0xF0 + a" "unat b2 = 0x80 + b" "unat b3 = 0x80 + d" "unat b4 = 0x80 + e"
    and "a \<le> 4" "b < 64" "d < 64" "e < 64" "a = 0 \<longrightarrow> 16 \<le> b" "a = 4 \<longrightarrow> b < 16"
  shows "utf8_decode 0 0 0 0x80 0xBF (b1 # b2 # b3 # b4 # rest) =
         (((a * 64 + b) * 64 + d) * 64 + e) # utf8_decode 0 0 0 0x80 0xBF rest"
proof -
  have m: "unat b1 mod 8 = a" "unat b2 mod 64 = b" "unat b3 mod 64 = d" "unat b4 mod 64 = e"
    using assms by (simp_all add: strip_marker)
  have "utf8_decode 0 0 0 0x80 0xBF (b1 # b2 # b3 # b4 # rest) =
        utf8_decode (unat b1 mod 8) 0 3 (if unat b1 = 0xF0 then 0x90 else 0x80)
          (if unat b1 = 0xF4 then 0x8F else 0xBF) (b2 # b3 # b4 # rest)"
    by (rule lead_four) (use assms in simp_all)
  also have "\<dots> = utf8_decode (unat b1 mod 8 * 64 + unat b2 mod 64) (0 + 1) 3 0x80 0xBF
        (b3 # b4 # rest)"
    by (rule continuation_more) (use assms in auto)
  also have "\<dots> = utf8_decode ((unat b1 mod 8 * 64 + unat b2 mod 64) * 64 + unat b3 mod 64)
        (0 + 1 + 1) 3 0x80 0xBF (b4 # rest)"
    by (rule continuation_more) (use assms in simp_all)
  also have "\<dots> = (((unat b1 mod 8 * 64 + unat b2 mod 64) * 64 + unat b3 mod 64) * 64
        + unat b4 mod 64) # utf8_decode 0 0 0 0x80 0xBF rest"
    by (rule continuation_last) (use assms in simp_all)
  finally show ?thesis unfolding m .
qed


lemma unat_byte: "n < 256 \<Longrightarrow> unat (of_nat n :: byte) = n"
  by (simp add: unat_of_nat)

lemma decode_encode_cp:
  assumes "scalar_value c"
  shows "utf8_decode 0 0 0 0x80 0xBF (utf8_encode_cp c @ rest) =
         c # utf8_decode 0 0 0 0x80 0xBF rest"
proof -
  define q1 r1 q2 r2 q3 r3 where "q1 = c div 64" and "r1 = c mod 64"
    and "q2 = q1 div 64" and "r2 = q1 mod 64" and "q3 = q2 div 64" and "r3 = q2 mod 64"
  have split: "c = q1 * 64 + r1" "q1 = q2 * 64 + r2" "q2 = q3 * 64 + r3"
    and small: "r1 < 64" "r2 < 64" "r3 < 64"
    by (simp_all add: q1_def r1_def q2_def r2_def q3_def r3_def)
  have divs: "c div 0x40 = q1" "c mod 0x40 = r1" "c div 0x1000 = q2" "c div 0x40000 = q3"
    using div_mult2_eq [of c 64 64] div_mult2_eq [of c 4096 64] div_mult2_eq [of c 64 64]
    by (simp_all add: q1_def r1_def q2_def q3_def)
  have mods: "q1 mod 0x40 = r2" "q2 mod 0x40 = r3"
    by (simp_all add: r2_def r3_def)
  consider "c < 0x80" | "0x80 \<le> c" "c < 0x800" | "0x800 \<le> c" "c < 0x10000"
    | "0x10000 \<le> c"
    by linarith
  then show ?thesis
  proof cases
    case 1
    then have "utf8_encode_cp c = [of_nat c]" by (simp add: utf8_encode_cp_def)
    moreover have "unat (of_nat c :: byte) = c" using 1 by (intro unat_byte) simp
    ultimately show ?thesis using 1 lead_ascii [of "of_nat c" 0 0 "0x80" "0xBF" rest] by simp
  next
    case 2
    have enc: "utf8_encode_cp c = [of_nat (0xC0 + q1), of_nat (0x80 + r1)]"
      using 2 by (simp add: utf8_encode_cp_def divs del: of_nat_add of_nat_numeral)
    have b: "2 \<le> q1" "q1 < 32" using 2 split(1) small(1) by linarith+
    have u: "unat (of_nat (0xC0 + q1) :: byte) = 0xC0 + q1"
        "unat (of_nat (0x80 + r1) :: byte) = 0x80 + r1"
      using b small(1) by (auto intro!: unat_byte simp del: of_nat_add of_nat_numeral)
    show ?thesis
      unfolding enc append_Cons append_Nil two_bytes [OF u b small(1)]
      using split(1) by simp
  next
    case 3
    have enc: "utf8_encode_cp c = [of_nat (0xE0 + q2), of_nat (0x80 + r2), of_nat (0x80 + r1)]"
      using 3 by (simp add: utf8_encode_cp_def divs mods del: of_nat_add of_nat_numeral)
    have b: "q2 < 16" using 3 split(1,2) small by linarith
    have lo: "q2 = 0 \<longrightarrow> 32 \<le> r2" using 3 split(1,2) small by linarith
    have "c < 0xD800 \<or> 0xDFFF < c" using assms by (auto simp: scalar_value_def)
    then have hi: "q2 = 13 \<longrightarrow> r2 < 32" using split(1,2) small by linarith
    have u: "unat (of_nat (0xE0 + q2) :: byte) = 0xE0 + q2"
        "unat (of_nat (0x80 + r2) :: byte) = 0x80 + r2"
        "unat (of_nat (0x80 + r1) :: byte) = 0x80 + r1"
      using b small by (auto intro!: unat_byte simp del: of_nat_add of_nat_numeral)
    show ?thesis
      unfolding enc append_Cons append_Nil three_bytes [OF u b small(2) small(1) lo hi]
      using split by simp
  next
    case 4
    have enc: "utf8_encode_cp c =
        [of_nat (0xF0 + q3), of_nat (0x80 + r3), of_nat (0x80 + r2), of_nat (0x80 + r1)]"
      using 4 by (simp add: utf8_encode_cp_def divs mods del: of_nat_add of_nat_numeral)
    have top: "c < 0x110000" using 4 assms by (simp add: scalar_value_def)
    have b: "q3 \<le> 4" using top split small by linarith
    have lo: "q3 = 0 \<longrightarrow> 16 \<le> r3" using 4 split small by linarith
    have hi: "q3 = 4 \<longrightarrow> r3 < 16" using top split small by linarith
    have u: "unat (of_nat (0xF0 + q3) :: byte) = 0xF0 + q3"
        "unat (of_nat (0x80 + r3) :: byte) = 0x80 + r3"
        "unat (of_nat (0x80 + r2) :: byte) = 0x80 + r2"
        "unat (of_nat (0x80 + r1) :: byte) = 0x80 + r1"
      using b small by (auto intro!: unat_byte simp del: of_nat_add of_nat_numeral)
    show ?thesis
      unfolding enc append_Cons append_Nil four_bytes [OF u b small(3) small(2) small(1) lo hi]
      using split by simp
  qed
qed


lemma decode_encode:
  "\<forall>c\<in>set t. scalar_value c \<Longrightarrow> utf8_decode 0 0 0 0x80 0xBF (utf8_encode t) = t"
proof (induction t)
  case Nil
  show ?case by (simp add: utf8_encode_def)
next
  case (Cons c t)
  then have "utf8_decode 0 0 0 0x80 0xBF (utf8_encode_cp c @ utf8_encode t) =
             c # utf8_decode 0 0 0 0x80 0xBF (utf8_encode t)"
    by (intro decode_encode_cp) simp
  with Cons show ?case by (simp add: utf8_encode_def)
qed

lemma keyword_bytes:
  assumes "\<forall>c\<in>set k. 0 < c \<and> c < 0x80"
  shows "map unat (map of_nat k :: byte list) = k" and "(0::byte) \<notin> set (map of_nat k)"
proof -
  have u: "unat (of_nat c :: byte) = c" if "c \<in> set k" for c
    using assms that by (intro unat_byte) auto
  show "map unat (map of_nat k :: byte list) = k"
    using u by (simp add: map_idI)
  show "(0::byte) \<notin> set (map of_nat k)"
  proof
    assume "(0::byte) \<in> set (map of_nat k)"
    then obtain c where c: "c \<in> set k" "(of_nat c :: byte) = 0" by auto
    from u [OF c(1)] c(2) have "c = 0" by simp
    with assms c(1) show False by auto
  qed
qed

lemma split_at_separator:
  assumes "(0::byte) \<notin> set kb"
  shows "takeWhile (\<lambda>b. b \<noteq> 0) (kb @ 0 # tb) = kb"
    and "drop 1 (dropWhile (\<lambda>b. b \<noteq> 0) (kb @ 0 # tb)) = tb"
  using assms by (induction kb) auto

lemma data_field_encodeTextChunk: "data_field (encodeTextChunk k t) = text_data k t"
  by (simp add: data_field_def encodeTextChunk_def be32_def)

lemma crc_byte_unfold:
  "crc_byte c b = crc_shift (crc_shift (crc_shift (crc_shift (crc_shift (crc_shift (crc_shift
     (crc_shift (c XOR ucast b))))))))"
  by (simp add: crc_byte_def eval_nat_numeral)

lemmas encode_defs =
  encodeTextChunk_def text_data_def utf8_encode_def utf8_encode_cp_def be32_def str_def
  crc32_def crc_byte_unfold crc_shift_def

lemma encode_example:
  "encodeTextChunk (str ''a'') [0x62, 0x20AC, 0x1F600] =
   [0x00, 0x00, 0x00, 0x0A, 0x74, 0x45, 0x58, 0x74, 0x61, 0x00,
    0x62, 0xE2, 0x82, 0xAC, 0xF0, 0x9F, 0x98, 0x80, 0x0C, 0x24, 0xB8, 0x08]"
  by (simp add: encode_defs)

section \<open>The loader reads back what the encoder wrote\<close>

text \<open>
  The chunk of \<open>encodeTextChunk\<close> behind the signature is a buffer that the source's
  \<open>parsePngTexts\<close> reads back: \<open>parse_encoded\<close>. The data must stay below
  \<open>2^31\<close> bytes for \<open>readUint32\<close> to read the length as it was written, and the
  text must not begin with U+FEFF, which the platform's decoder drops.
\<close>

lemma be32_join:
  "push_bit 24 (ucast (ucast (drop_bit 24 w) :: byte) :: 32 word)
   OR push_bit 16 (ucast (ucast (drop_bit 16 w) :: byte))
   OR push_bit 8 (ucast (ucast (drop_bit 8 w) :: byte))
   OR ucast (ucast w :: byte) = w"
proof (rule bit_word_eqI)
  fix n assume "n < LENGTH(32)"
  then consider "n < 8" | "8 \<le> n" "n < 16" | "16 \<le> n" "n < 24" | "24 \<le> n" "n < 32"
    by fastforce
  then show "bit (push_bit 24 (ucast (ucast (drop_bit 24 w) :: byte) :: 32 word)
       OR push_bit 16 (ucast (ucast (drop_bit 16 w) :: byte))
       OR push_bit 8 (ucast (ucast (drop_bit 8 w) :: byte))
       OR ucast (ucast w :: byte)) n = bit w n"
    by cases (auto simp: bit_simps)
qed

lemma sint_small: "n < 2 ^ 31 \<Longrightarrow> sint (of_nat n :: 32 word) = int n"
  by (simp add: signed_of_nat signed_take_bit_int_eq_self)

lemma byte_at_append:
  "i < length mid \<Longrightarrow> byte_at (pre @ mid @ post) (int (length pre) + int i) = Some (mid ! i)"
  by (simp add: byte_at_def nth_append flip: of_nat_add)

lemma readUint32_be32:
  assumes "n < 2 ^ 31"
  shows "readUint32 (pre @ be32 (of_nat n) @ post) (int (length pre)) = int n"
proof -
  have at: "byte_at (pre @ be32 w @ post) (int (length pre) + int i) = Some (be32 w ! i)"
    if "i < 4" for i w
    using that by (intro byte_at_append) (simp add: be32_def)
  have "readUint32 (pre @ be32 (of_nat n) @ post) (int (length pre)) = sint (of_nat n :: 32 word)"
    using at [of 0] at [of 1] at [of 2] at [of 3]
    by (simp add: readUint32_def ToInt32_def be32_def be32_join)
  also have "\<dots> = int n"
    using assms by (rule sint_small)
  finally show ?thesis .
qed


lemma utf8_encode_ascii:
  "\<forall>c\<in>set k. c < 0x80 \<Longrightarrow> utf8_encode k = map of_nat k"
  by (induction k) (simp_all add: utf8_encode_def utf8_encode_cp_def)

lemma code_units_small: "\<forall>c\<in>set k. c < 0x10000 \<Longrightarrow> concat (map code_units k) = k"
  by (induction k) (simp_all add: code_units_def)

lemma TextDecoder_decode_utf8:
  assumes "\<forall>c\<in>set t. scalar_value c" and "t = [] \<or> hd t \<noteq> 0xFEFF"
  shows "TextDecoder_decode (utf8_encode t) = concat (map code_units t)"
proof -
  have d: "utf8_decode 0 0 0 0x80 0xBF (utf8_encode t) = t"
    by (rule decode_encode [OF assms(1)])
  show ?thesis unfolding TextDecoder_decode_def d using assms(2) by (cases t) simp_all
qed

lemma TextDecoder_decode_ascii:
  assumes "\<forall>c\<in>set k. 0 < c \<and> c < 0x80"
  shows "TextDecoder_decode (map of_nat k) = k"
proof -
  have s: "\<forall>c\<in>set k. scalar_value c" and a: "\<forall>c\<in>set k. c < 0x80"
    and u: "\<forall>c\<in>set k. c < 0x10000"
    using assms by (auto simp: scalar_value_def)
  have "k = [] \<or> hd k \<noteq> 0xFEFF" using a by (cases k) auto
  from TextDecoder_decode_utf8 [OF s this] show ?thesis
    by (simp add: utf8_encode_ascii [OF a] code_units_small [OF u])
qed

text \<open>
  \<open>decodeTextChunk\<close> is what the pass for a \<open>tEXt\<close> chunk computes from the chunk's
  data.
\<close>

lemma chunk_entry_decodeTextChunk:
  "chunk_entry uint8 offset =
   (if chunk_type uint8 offset = str ''tEXt'' then decodeTextChunk (chunk_data uint8 offset)
    else None)"
  by (simp add: chunk_entry_def decodeTextChunk_def Let_def)

lemma decodeTextChunk_split:
  "0 \<notin> set kb \<Longrightarrow>
   decodeTextChunk (kb @ 0 # tb) = Some (TextDecoder_decode kb, TextDecoder_decode tb)"
  by (simp add: decodeTextChunk_def indexOf_first slice_before slice_after)

lemma decodeTextChunk_text_data:
  assumes "\<forall>c\<in>set k. 0 < c \<and> c < 0x80" and "\<forall>c\<in>set t. scalar_value c"
    and "t = [] \<or> hd t \<noteq> 0xFEFF"
  shows "decodeTextChunk (text_data k t) = Some (k, concat (map code_units t))"
proof -
  have "decodeTextChunk (map of_nat k @ 0 # utf8_encode t) =
        Some (TextDecoder_decode (map of_nat k), TextDecoder_decode (utf8_encode t))"
    by (rule decodeTextChunk_split) (rule keyword_bytes(2) [OF assms(1)])
  then show ?thesis
    by (simp add: text_data_def TextDecoder_decode_ascii [OF assms(1)]
        TextDecoder_decode_utf8 [OF assms(2,3)])
qed

text \<open>
  Why the keyword must not hold the character U+0000: it is the separator, and the
  decoder splits at its first occurrence.
\<close>

lemma separator_in_keyword:
  "decodeTextChunk (data_field (encodeTextChunk [0] [0x61])) = Some ([], [0, 0x61])"
  by (simp add: data_field_encodeTextChunk)
     (simp add: decodeTextChunk_def text_data_def utf8_encode_def utf8_encode_cp_def
        slice_def relative_index_def TextDecoder_decode_def code_units_def)

lemma type_of_encoded: "chunk_type (encodeTextChunk k t) 0 = str ''tEXt''"
  by (simp add: chunk_type_def byte_at_def ToUint16_def encodeTextChunk_def be32_def str_def)

lemma parse_encoded:
  assumes k: "\<forall>c\<in>set k. 0 < c \<and> c < 0x80" and t: "\<forall>c\<in>set t. scalar_value c"
    and proto: "k \<noteq> str ''__proto__''" and bom: "t = [] \<or> hd t \<noteq> 0xFEFF"
    and size: "length k + 1 + length (utf8_encode t) < 2 ^ 31"
  shows "parsePngTexts (signature @ encodeTextChunk k t) = Some [k \<mapsto> concat (map code_units t)]"
proof -
  define n where "n = length k + 1 + length (utf8_encode t)"
  define crc where "crc = be32 (crc32 (map of_char ''tEXt'' @ text_data k t))"
  define B where "B = signature @ encodeTextChunk k t"
  have n: "length (text_data k t) = n" by (simp add: n_def text_data_def)
  have B1: "B = signature @ be32 (of_nat n) @ (map of_char ''tEXt'' @ text_data k t @ crc)"
    by (simp add: B_def encodeTextChunk_def n_def crc_def)
  have B2: "B = (signature @ be32 (of_nat n)) @ map of_char ''tEXt'' @ (text_data k t @ crc)"
    by (simp add: B1)
  have B3: "B = (signature @ be32 (of_nat n) @ map of_char ''tEXt'') @ text_data k t @ crc"
    by (simp add: B1)
  have len: "int (length B) = int n + 20"
    by (simp add: B1 n signature_def be32_def crc_def)
  have rd: "readUint32 B 8 = int n"
    using readUint32_be32 [of n signature] size unfolding B1 n_def by (simp add: signature_def)
  have ty: "chunk_type B 8 = str ''tEXt''"
    using byte_at_append [of 0 "map of_char ''tEXt''" "signature @ be32 (of_nat n)" "text_data k t @ crc"]
      byte_at_append [of 1 "map of_char ''tEXt''" "signature @ be32 (of_nat n)" "text_data k t @ crc"]
      byte_at_append [of 2 "map of_char ''tEXt''" "signature @ be32 (of_nat n)" "text_data k t @ crc"]
      byte_at_append [of 3 "map of_char ''tEXt''" "signature @ be32 (of_nat n)" "text_data k t @ crc"]
    unfolding B2 [symmetric]
    by (simp add: chunk_type_def ToUint16_def str_def signature_def be32_def)
  have de: "dataEnd B 8 = int n + 16" by (simp add: dataEnd_def rd)
  have "chunk_data B 8 = take n (drop 16 B)"
    by (simp add: chunk_data_def slice_def relative_index_def de len)
  also have "\<dots> = text_data k t"
    unfolding B3 by (simp add: n signature_def be32_def)
  finally have data: "chunk_data B 8 = map of_nat k @ 0 # utf8_encode t"
    by (simp add: text_data_def)
  have entry: "chunk_entry B 8 = Some (k, concat (map code_units t))"
    using chunk_entry_split [OF ty data keyword_bytes(2) [OF k]]
    by (simp add: TextDecoder_decode_ascii [OF k] TextDecoder_decode_utf8 [OF t bom])
  have "walk B (dataEnd B 8 + 4) [] (dataEnd B 8 + 4)" by (rule walk_here)
  then have "walk B 8 [8] (dataEnd B 8 + 4)"
    by (rule walk_chunk [rotated 2]) (simp_all add: de len)
  moreover have "dataEnd B 8 + 4 = int n + 20" by (simp add: de)
  ultimately have w: "walk B 8 [8] (int n + 20)" by (simp only:)
  have st: "stops B (int n + 20)" by (simp add: stops_def len)
  from parsePngTexts_walk [OF w st] show ?thesis
    unfolding B_def [symmetric] using proto by (simp add: chunk_texts_def entry assign_def)
qed

lemma bom_dropped: "TextDecoder_decode (utf8_encode [0xFEFF, 0x61]) = [0x61]"
  by (simp add: TextDecoder_decode_def utf8_encode_def utf8_encode_cp_def code_units_def)

section \<open>Evaluating the examples\<close>

lemmas eval_defs =
  dataEnd_def readUint32_def byte_at_def ToInt32_def ToUint16_def chunk_type_def
  ascii_def signature_def str_def stops_def

lemma walk_png_two_chunks: "walk png_two_chunks 8 [8, 24] 36"
  by (rule walk_chunk [where offset' = 36] walk_chunk [where os = "[]"] walk_here
        | simp add: eval_defs png_two_chunks_def)+

lemma walk_png_truncated: "walk png_truncated 8 [8] 24"
  by (rule walk_chunk [where os = "[]"] walk_here
        | simp add: eval_defs png_truncated_def)+

lemmas decode_defs =
  chunk_entry_def chunk_data_def slice_def relative_index_def TextDecoder_decode_def
  code_units_def

lemma entry_png_truncated: "chunk_entry png_truncated 8 = Some (str ''a'', str ''bc'')"
  by (simp add: decode_defs eval_defs png_truncated_def)

lemma walk_png_empty_keyword: "walk png_empty_keyword 8 [8, 22] 34"
  by (rule walk_chunk [where os = "[22]"] walk_chunk [where os = "[]"] walk_here
        | simp add: eval_defs png_empty_keyword_def)+

lemma stops_png_empty_keyword: "stops png_empty_keyword 34"
  by (simp add: eval_defs png_empty_keyword_def)

lemma walk_png_negative_length: "walk png_negative_length 8 [8] 8"
  by (rule walk_chunk [where os = "[]"] walk_here
        | simp add: eval_defs png_negative_length_def)+

lemma walk_gif_garbage: "walk gif_garbage 8 [8, - 4] 8"
  by (rule walk_chunk [where os = "[- 4]"] walk_chunk [where os = "[]"] walk_here
        | simp add: eval_defs gif_garbage_def)+

lemma walk_png_proto_twice: "walk png_proto_twice 8 [8, 31, 54] 66"
  by (rule walk_chunk [where os = "[31, 54]"] walk_chunk [where os = "[54]"] walk_chunk [where os = "[]"] walk_here
        | simp add: eval_defs png_proto_twice_def)+

lemma stops_png_proto_twice: "stops png_proto_twice 66"
  by (simp add: eval_defs png_proto_twice_def)

lemma walk_png_workflow_twice: "walk png_workflow_twice 8 [8, 31, 54] 66"
  by (rule walk_chunk [where os = "[31, 54]"] walk_chunk [where os = "[54]"] walk_chunk [where os = "[]"] walk_here
        | simp add: eval_defs png_workflow_twice_def)+

lemma walk_png_zTXt: "walk png_zTXt 8 [8, 36] 48"
  by (rule walk_chunk [where os = "[36]"] walk_chunk [where os = "[]"] walk_here
        | simp add: eval_defs png_zTXt_def)+

lemma walk_png_empty_workflow: "walk png_empty_workflow 8 [8, 29] 41"
  by (rule walk_chunk [where os = "[29]"] walk_chunk [where os = "[]"] walk_here
        | simp add: eval_defs png_empty_workflow_def)+

lemma walk_png_iend_only: "walk png_iend_only 8 [8] 20"
  by (rule walk_chunk [where os = "[]"] walk_here
        | simp add: eval_defs png_iend_only_def)+

lemma entries_png_proto_twice:
  "chunk_entry png_proto_twice 8 = Some (str ''__proto__'', str ''a'')"
  "chunk_entry png_proto_twice 31 = Some (str ''__proto__'', str ''b'')"
  "chunk_entry png_proto_twice 54 = None"
  by (simp_all add: decode_defs eval_defs png_proto_twice_def)

lemma entries_png_workflow_twice:
  "chunk_entry png_workflow_twice 8 = Some (str ''workflow'', str ''{}'')"
  "chunk_entry png_workflow_twice 31 = Some (str ''workflow'', str ''[]'')"
  "chunk_entry png_workflow_twice 54 = None"
  by (simp_all add: decode_defs eval_defs png_workflow_twice_def)

lemma entries_png_empty_workflow:
  "chunk_entry png_empty_workflow 8 = Some (str ''workflow'', [])"
  "chunk_entry png_empty_workflow 29 = None"
  by (simp_all add: decode_defs eval_defs png_empty_workflow_def)

lemma entries_png_zTXt:
  "chunk_type png_zTXt 8 = str ''zTXt''"
  "chunk_entry png_zTXt 8 = None"
  "chunk_entry png_zTXt 36 = None"
  by (simp_all add: decode_defs eval_defs png_zTXt_def)

lemma entries_png_empty_keyword:
  "chunk_type png_empty_keyword 8 = str ''tEXt''"
  "chunk_data png_empty_keyword 8 = 0 # ascii ''x''"
  "chunk_entry png_empty_keyword 22 = None"
  "TextDecoder_decode (ascii ''x'') = str ''x''"
  by (simp_all add: decode_defs eval_defs png_empty_keyword_def)

lemma walk_png_no_separator: "walk png_no_separator 8 [8] 23"
  by (rule walk_chunk [where os = "[]"] walk_here
        | simp add: eval_defs png_no_separator_def)+

lemma entries_png_no_separator:
  "chunk_type png_no_separator 8 = str ''tEXt''"
  "chunk_data png_no_separator 8 = ascii ''abc''"
  by (simp_all add: decode_defs eval_defs png_no_separator_def)

lemma entries_png_two_chunks:
  "chunk_type png_two_chunks 8 = str ''tEXt''"
  "chunk_data png_two_chunks 8 = ascii ''a'' @ 0 # ascii ''bc''"
  "TextDecoder_decode (ascii ''a'') = str ''a''"
  "TextDecoder_decode (ascii ''bc'') = str ''bc''"
  by (simp_all add: decode_defs eval_defs png_two_chunks_def)

lemma stops_png_empty_workflow: "stops png_empty_workflow 41"
  by (simp add: eval_defs png_empty_workflow_def)

lemma stops_png_iend_only: "stops png_iend_only 20"
  by (simp add: eval_defs png_iend_only_def)

lemma stops_png_workflow_twice: "stops png_workflow_twice 66"
  by (simp add: eval_defs png_workflow_twice_def)

lemma stops_png_zTXt: "stops png_zTXt 48"
  by (simp add: eval_defs png_zTXt_def)

lemma entries_png_iend_only: "chunk_entry png_iend_only 8 = None"
  by (simp add: decode_defs eval_defs png_iend_only_def)

lemma entries_png_overlong:
  "chunk_entry png_overlong 8 = None"
  "chunk_entry png_overlong 19 = Some (str ''m'', str ''n'')"
  by (simp_all add: decode_defs eval_defs png_overlong_def)

lemma entries_png_short_step:
  "chunk_entry png_short_step 8 = None"
  "chunk_entry png_short_step 16 = Some (str ''k'', str ''v'')"
  by (simp_all add: decode_defs eval_defs png_short_step_def)

text \<open>Of two \<open>tEXt\<close> chunks with the keyword \<open>workflow\<close> the later one wins.\<close>

lemma workflow_twice_last_wins:
  "\<exists>texts. parsePngTexts png_workflow_twice = Some texts \<and>
     texts (str ''workflow'') = Some (str ''[]'')"
proof (rule last_write_wins [OF walk_png_workflow_twice stops_png_workflow_twice])
  show "[8, 31, 54] = [8] @ 31 # [54]" by simp
  show "chunk_entry png_workflow_twice 31 = Some (str ''workflow'', str ''[]'')"
    by (rule entries_png_workflow_twice(2))
  show "str ''workflow'' \<noteq> str ''__proto__''" by (simp add: str_def)
  show "\<forall>d\<in>set [54]. \<forall>t. chunk_entry png_workflow_twice d \<noteq> Some (str ''workflow'', t)"
    by (simp add: entries_png_workflow_twice(3))
qed

section \<open>The claims\<close>

text \<open>
  C6. For a \<open>tEXt\<close> chunk the body splits the data at its first zero byte: with the
  data \<open>k\<close>, a zero byte, \<open>t\<close>, where \<open>k\<close> has no zero byte, the keyword is \<open>k\<close>
  decoded and the text is \<open>t\<close> decoded, all the bytes after that zero, and this pair is
  what is assigned. With no zero byte in the data the pass leaves \<open>texts\<close> as it was.
\<close>

theorem tEXt_split_at_first_zero:
  assumes "chunk_type uint8 offset = str ''tEXt''"
  shows "(chunk_data uint8 offset = k @ 0 # t \<and> 0 \<notin> set k \<longrightarrow>
            chunk_entry uint8 offset = Some (TextDecoder_decode k, TextDecoder_decode t) \<and>
            chunk_texts uint8 offset texts =
              assign texts (TextDecoder_decode k) (TextDecoder_decode t))
       \<and> (0 \<notin> set (chunk_data uint8 offset) \<longrightarrow>
            chunk_entry uint8 offset = None \<and> chunk_texts uint8 offset texts = texts)"
  using assms
  by (simp add: chunk_texts_def chunk_entry_split chunk_entry_no_separator)

theorem tEXt_split_at_first_zero_witness:
  "chunk_type png_two_chunks 8 = str ''tEXt''
   \<and> chunk_data png_two_chunks 8 = ascii ''a'' @ 0 # ascii ''bc'' \<and> 0 \<notin> set (ascii ''a'')
   \<and> chunk_texts png_two_chunks 8 Map.empty = [str ''a'' \<mapsto> str ''bc'']
   \<and> chunk_type png_no_separator 8 = str ''tEXt''
   \<and> 0 \<notin> set (chunk_data png_no_separator 8)
   \<and> chunk_texts png_no_separator 8 [str ''a'' \<mapsto> str ''bc''] = [str ''a'' \<mapsto> str ''bc'']"
proof -
  have zero: "0 \<notin> set (ascii ''a'')" "0 \<notin> set (chunk_data png_no_separator 8)"
    by (simp_all add: entries_png_no_separator ascii_def)
  have "chunk_texts png_two_chunks 8 Map.empty = [str ''a'' \<mapsto> str ''bc'']"
    using tEXt_split_at_first_zero [OF entries_png_two_chunks(1),
        of "ascii ''a''" "ascii ''bc''" Map.empty]
      entries_png_two_chunks(2) zero(1)
    by (simp add: entries_png_two_chunks(3,4) assign_def) (simp add: str_def)
  moreover have
    "chunk_texts png_no_separator 8 [str ''a'' \<mapsto> str ''bc''] = [str ''a'' \<mapsto> str ''bc'']"
    using tEXt_split_at_first_zero [OF entries_png_no_separator(1),
        of "[]" "[]" "[str ''a'' \<mapsto> str ''bc'']"] zero(2)
    by simp
  ultimately show ?thesis
    using zero entries_png_two_chunks(1,2) entries_png_no_separator(1) by simp
qed

text \<open>
  C10. A \<open>tEXt\<close> chunk whose data begins with a zero byte is accepted
  (\<open>nullIdx >= 0\<close> holds for index 0): the keyword is the empty string, the text is
  the rest of the data decoded, and after the pass \<open>texts\<close> has the key \<open>""\<close>.
\<close>

theorem empty_keyword_accepted:
  assumes "chunk_type uint8 offset = str ''tEXt''" and "chunk_data uint8 offset = 0 # t"
  shows "chunk_entry uint8 offset = Some ([], TextDecoder_decode t) \<and>
         chunk_texts uint8 offset texts = texts([] \<mapsto> TextDecoder_decode t)"
proof -
  from assms have "chunk_entry uint8 offset = Some (TextDecoder_decode [], TextDecoder_decode t)"
    using chunk_entry_split [of uint8 offset "[]" t] by simp
  then show ?thesis
    by (simp add: chunk_texts_def assign_def TextDecoder_decode_empty str_def)
qed

theorem empty_keyword_accepted_witness:
  "chunk_type png_empty_keyword 8 = str ''tEXt''
   \<and> chunk_data png_empty_keyword 8 = 0 # ascii ''x''
   \<and> chunk_texts png_empty_keyword 8 Map.empty = [[] \<mapsto> str ''x'']
   \<and> parsePngTexts png_empty_keyword = Some [[] \<mapsto> str ''x'']"
proof -
  have first: "chunk_texts png_empty_keyword 8 Map.empty = [[] \<mapsto> str ''x'']"
    using empty_keyword_accepted [OF entries_png_empty_keyword(1,2), of Map.empty]
    by (simp add: entries_png_empty_keyword(4))
  have "chunk_texts png_empty_keyword 22 [[] \<mapsto> str ''x''] = [[] \<mapsto> str ''x'']"
    by (simp add: chunk_texts_def entries_png_empty_keyword(3))
  with first have "parsePngTexts png_empty_keyword = Some [[] \<mapsto> str ''x'']"
    using parsePngTexts_walk [OF walk_png_empty_keyword stops_png_empty_keyword] by simp
  with first entries_png_empty_keyword(1,2) show ?thesis by simp
qed

text \<open>
  C2. The claim fails on the code. \<open>readUint32\<close> yields a signed 32-bit value, so the
  length field \<open>FF FF FF F4\<close> is read as \<open>-12\<close>: for the 16 bytes of
  \<open>png_negative_length\<close> the pass at offset 8 computes \<open>dataEnd = 4\<close>, which does not
  exceed the buffer length, and sets \<open>offset\<close> to 8 again. The loop passes this chunk
  for ever and \<open>parsePngTexts\<close> never returns.
\<close>

theorem negative_length_never_returns:
  "readUint32 png_negative_length 8 = - 12
   \<and> dataEnd png_negative_length 8 + 4 = 8
   \<and> parsePngTexts png_negative_length = None"
proof -
  have "parsePngTexts png_negative_length = None"
    unfolding parsePngTexts_def using walk_png_negative_length
    by (rule cyclic_walk_diverges) simp
  then show ?thesis by (simp add: eval_defs png_negative_length_def)
qed

text \<open>
  C9. The claim fails on the code, by the same signed length: for the 16 bytes of
  \<open>gif_garbage\<close>, which are no PNG, the field at offset 8 is read as \<open>-24\<close>, the pass
  moves \<open>offset\<close> to \<open>-4\<close>, the pass there reads the length 0 from outside the buffer
  and moves \<open>offset\<close> back to 8. Nothing is thrown, and \<open>parsePngTexts\<close> returns no
  object: it never returns.
\<close>

theorem garbage_never_returns:
  "readUint32 gif_garbage 8 = - 24 \<and> readUint32 gif_garbage (- 4) = 0
   \<and> parsePngTexts gif_garbage = None"
proof -
  have "parsePngTexts gif_garbage = None"
    unfolding parsePngTexts_def using walk_gif_garbage
    by (rule cyclic_walk_diverges) simp
  then show ?thesis by (simp add: eval_defs gif_garbage_def)
qed

text \<open>
  C7. The claim fails on the code for the keyword \<open>__proto__\<close>: the two \<open>tEXt\<close> chunks
  of \<open>png_proto_twice\<close> carry it with the texts \<open>a\<close> and \<open>b\<close>, both assignments are
  swallowed by the setter inherited from \<open>Object.prototype\<close>, and the returned object
  has no property at all, so the keyword is not bound to \<open>b\<close>. For every other keyword
  the last chunk wins (\<open>last_write_wins\<close>).
\<close>

theorem proto_keyword_not_stored:
  "chunk_entry png_proto_twice 8 = Some (str ''__proto__'', str ''a'')
   \<and> chunk_entry png_proto_twice 31 = Some (str ''__proto__'', str ''b'')
   \<and> parsePngTexts png_proto_twice = Some Map.empty"
  using parsePngTexts_walk [OF walk_png_proto_twice stops_png_proto_twice]
  by (simp add: chunk_texts_def entries_png_proto_twice assign_def)

text \<open>
  C3. The claim fails on the code in the remote path. For \<open>png_empty_workflow\<close>, whose
  \<open>tEXt\<close> chunk binds \<open>workflow\<close> to the empty string, \<open>readPngWorkflow\<close> resolves
  with the empty string, but the remote path throws the error it throws for
  \<open>png_iend_only\<close>, which has no \<open>workflow\<close> keyword: \<open>!raw\<close> holds for both.
\<close>

theorem remote_confuses_empty_text:
  "parsePngTexts png_empty_workflow = Some [str ''workflow'' \<mapsto> []]
   \<and> readPngWorkflow png_empty_workflow (str ''workflow'') = Some (Inr [])
   \<and> remote_raw png_empty_workflow = Some (Inl (NoMetadata (str ''workflow'')))
   \<and> parsePngTexts png_iend_only = Some Map.empty
   \<and> remote_raw png_iend_only = Some (Inl (NoMetadata (str ''workflow'')))"
proof -
  have a: "parsePngTexts png_empty_workflow = Some [str ''workflow'' \<mapsto> []]"
    using parsePngTexts_walk [OF walk_png_empty_workflow stops_png_empty_workflow]
    by (simp add: chunk_texts_def entries_png_empty_workflow assign_def) (simp add: str_def)
  have b: "parsePngTexts png_iend_only = Some Map.empty"
    using parsePngTexts_walk [OF walk_png_iend_only stops_png_iend_only]
    by (simp add: chunk_texts_def entries_png_iend_only)
  show ?thesis
    by (simp add: a b readPngWorkflow_def remote_raw_def)
qed

text \<open>
  C1. The claim fails on \<open>parsePngTexts\<close>: for \<open>png_zTXt\<close>, whose \<open>zTXt\<close> chunk
  carries the keyword \<open>a\<close> and the compressed text \<open>hello\<close>, the loop passes the chunk
  and the \<open>IEND\<close> chunk and returns an object with no property; nothing is inflated
  and no pair is added. The loop of the modularized copy has the branch for \<open>zTXt\<close>
  that this one lacks.
\<close>

theorem zTXt_chunk_ignored:
  "chunk_type png_zTXt 8 = str ''zTXt'' \<and> parsePngTexts png_zTXt = Some Map.empty"
  using parsePngTexts_walk [OF walk_png_zTXt stops_png_zTXt]
  by (simp add: chunk_texts_def entries_png_zTXt)

text \<open>
  C5. The claim fails on the code, by the signed length of C2. In \<open>png_overlong\<close> the
  chunk at offset 8 declares the length \<open>FF FF FF FF\<close>, so its declared data end is far
  beyond the 34 bytes of the buffer; \<open>readUint32\<close> reads \<open>-1\<close>, \<open>dataEnd\<close> is 15,
  the \<open>break\<close> is not taken, and the loop goes on at offset 19, where it decodes the
  \<open>tEXt\<close> chunk: the result is not the empty object of the chunks before offset 8.
\<close>

theorem overlong_chunk_passed:
  "take 4 (drop 8 png_overlong) = [0xFF, 0xFF, 0xFF, 0xFF] \<and> length png_overlong = 34
   \<and> readUint32 png_overlong 8 = - 1 \<and> dataEnd png_overlong 8 = 15
   \<and> parsePngTexts_loop png_overlong 8 Map.empty = parsePngTexts_loop png_overlong 19 Map.empty
   \<and> parsePngTexts png_overlong = Some [str ''m'' \<mapsto> str ''n'']"
proof -
  have first: "parsePngTexts_loop png_overlong 8 Map.empty =
      parsePngTexts_loop png_overlong 19 Map.empty"
    using loop_next [of 8 png_overlong Map.empty]
    by (simp add: chunk_texts_def entries_png_overlong(1))
       (simp add: eval_defs png_overlong_def)
  have second: "parsePngTexts_loop png_overlong 19 Map.empty =
      parsePngTexts_loop png_overlong 34 [str ''m'' \<mapsto> str ''n'']"
    using loop_next [of 19 png_overlong Map.empty]
    by (simp add: chunk_texts_def entries_png_overlong(2) assign_def)
       (simp add: eval_defs png_overlong_def)
  have last: "parsePngTexts_loop png_overlong 34 [str ''m'' \<mapsto> str ''n''] =
      Some [str ''m'' \<mapsto> str ''n'']"
    by (rule loop_exit) (simp add: eval_defs png_overlong_def)
  have "parsePngTexts png_overlong = Some [str ''m'' \<mapsto> str ''n'']"
    by (simp only: parsePngTexts_def first second last)
  with first show ?thesis by (simp add: eval_defs png_overlong_def)
qed

text \<open>
  C8. The claim fails on the code, by the signed length of C2. In \<open>png_short_step\<close> the
  chunk at offset 8 declares the length \<open>FF FF FF FC\<close>; \<open>readUint32\<close> reads \<open>-4\<close>
  and the pass moves \<open>offset\<close> from 8 to 16, by 8 bytes and not by 12 plus the declared
  length; the loop then decodes the \<open>tEXt\<close> chunk that begins at offset 16, inside the
  12 bytes of the chunk before, and leaves at offset 31, the length of the buffer.
\<close>

theorem short_step_passed:
  "take 4 (drop 8 png_short_step) = [0xFF, 0xFF, 0xFF, 0xFC] \<and> length png_short_step = 31
   \<and> readUint32 png_short_step 8 = - 4 \<and> dataEnd png_short_step 8 + 4 = 16
   \<and> parsePngTexts_loop png_short_step 8 Map.empty =
       parsePngTexts_loop png_short_step 16 Map.empty
   \<and> parsePngTexts_loop png_short_step 16 Map.empty =
       parsePngTexts_loop png_short_step 31 [str ''k'' \<mapsto> str ''v'']
   \<and> parsePngTexts png_short_step = Some [str ''k'' \<mapsto> str ''v'']"
proof -
  have first: "parsePngTexts_loop png_short_step 8 Map.empty =
      parsePngTexts_loop png_short_step 16 Map.empty"
    using loop_next [of 8 png_short_step Map.empty]
    by (simp add: chunk_texts_def entries_png_short_step(1))
       (simp add: eval_defs png_short_step_def)
  have second: "parsePngTexts_loop png_short_step 16 Map.empty =
      parsePngTexts_loop png_short_step 31 [str ''k'' \<mapsto> str ''v'']"
    using loop_next [of 16 png_short_step Map.empty]
    by (simp add: chunk_texts_def entries_png_short_step(2) assign_def)
       (simp add: eval_defs png_short_step_def)
  have last: "parsePngTexts_loop png_short_step 31 [str ''k'' \<mapsto> str ''v''] =
      Some [str ''k'' \<mapsto> str ''v'']"
    by (rule loop_exit) (simp add: eval_defs png_short_step_def)
  have "parsePngTexts png_short_step = Some [str ''k'' \<mapsto> str ''v'']"
    by (simp only: parsePngTexts_def first second last)
  with first second show ?thesis by (simp add: eval_defs png_short_step_def)
qed

text \<open>
  C4. The claim fails on the source's decoding for a text that begins with U+FEFF: the
  keyword \<open>a\<close> is ASCII and the UTF-8 form \<open>EF BB BF 62\<close> of the text has no zero
  byte, but \<open>new TextDecoder()\<close> drops a leading byte order mark, and the text comes
  back as \<open>b\<close>.
\<close>

theorem leading_bom_breaks_round_trip:
  "utf8_encode [0xFEFF, 0x62] = [0xEF, 0xBB, 0xBF, 0x62]
   \<and> data_field (encodeTextChunk (str ''a'') [0xFEFF, 0x62]) =
       [0x61, 0x00, 0xEF, 0xBB, 0xBF, 0x62]
   \<and> decodeTextChunk (data_field (encodeTextChunk (str ''a'') [0xFEFF, 0x62])) =
       Some (str ''a'', [0x62])"
  by (simp add: data_field_encodeTextChunk)
     (simp add: decodeTextChunk_def text_data_def utf8_encode_def utf8_encode_cp_def
        slice_def relative_index_def TextDecoder_decode_def code_units_def str_def)

text \<open>
  C4, as amended. For every ASCII keyword \<open>k\<close> (characters U+0001 to U+007F; U+0000 is
  the separator) and every string \<open>t\<close> of Unicode scalar values that does not begin
  with U+FEFF, the source's decoding of the data field of \<open>encodeTextChunk k t\<close>
  returns exactly the keyword \<open>k\<close> and the text \<open>t\<close>, as the JavaScript string of
  its UTF-16 code units. The chunk is the 4-byte big-endian length of keyword, separator
  and UTF-8 text, the type \<open>tEXt\<close>, which the source's type test accepts, the keyword,
  one zero byte, the UTF-8 text, and the CRC-32 of type and data.
\<close>

theorem encode_decode_round_trip:
  assumes "\<forall>c\<in>set k. 0 < c \<and> c < 0x80" and "\<forall>c\<in>set t. scalar_value c"
    and "t = [] \<or> hd t \<noteq> 0xFEFF"
  shows "decodeTextChunk (data_field (encodeTextChunk k t)) =
           Some (k, concat (map code_units t))
       \<and> chunk_type (encodeTextChunk k t) 0 = str ''tEXt''
       \<and> encodeTextChunk k t =
           be32 (of_nat (length k + 1 + length (utf8_encode t)))
           @ map of_char ''tEXt'' @ map of_nat k @ [0] @ utf8_encode t
           @ be32 (crc32 (map of_char ''tEXt'' @ map of_nat k @ [0] @ utf8_encode t))"
  using decodeTextChunk_text_data [OF assms] type_of_encoded [of k t]
  by (simp add: data_field_encodeTextChunk) (simp add: encodeTextChunk_def text_data_def)

theorem encode_decode_round_trip_witness:
  "list_all (\<lambda>c. 0 < c \<and> c < 0x80) (str ''a'') \<and> list_all scalar_value [0x62, 0x20AC, 0x1F600]
   \<and> hd [0x62, 0x20AC, 0x1F600] \<noteq> (0xFEFF :: nat)
   \<and> decodeTextChunk (data_field (encodeTextChunk (str ''a'') [0x62, 0x20AC, 0x1F600])) =
       Some (str ''a'', [0x62, 0x20AC, 0xD83D, 0xDE00])
   \<and> encodeTextChunk (str ''a'') [0x62, 0x20AC, 0x1F600] =
       [0x00, 0x00, 0x00, 0x0A, 0x74, 0x45, 0x58, 0x74, 0x61, 0x00,
        0x62, 0xE2, 0x82, 0xAC, 0xF0, 0x9F, 0x98, 0x80, 0x0C, 0x24, 0xB8, 0x08]"
proof -
  have k: "\<forall>c\<in>set (str ''a''). 0 < c \<and> c < 0x80"
    and t: "\<forall>c\<in>set [0x62, 0x20AC, 0x1F600]. scalar_value c"
    and b: "[0x62, 0x20AC, 0x1F600] = [] \<or> hd [0x62, 0x20AC, 0x1F600] \<noteq> (0xFEFF :: nat)"
    by (simp_all add: str_def scalar_value_def)
  have "decodeTextChunk (data_field (encodeTextChunk (str ''a'') [0x62, 0x20AC, 0x1F600])) =
       Some (str ''a'', concat (map code_units [0x62, 0x20AC, 0x1F600]))"
    using encode_decode_round_trip [OF k t b] by (rule conjunct1)
  then have r: "decodeTextChunk (data_field (encodeTextChunk (str ''a'') [0x62, 0x20AC, 0x1F600])) =
       Some (str ''a'', [0x62, 0x20AC, 0xD83D, 0xDE00])"
    by (simp add: code_units_def)
  from k t have "list_all (\<lambda>c. 0 < c \<and> c < 0x80) (str ''a'')"
      "list_all scalar_value [0x62, 0x20AC, 0x1F600]"
    by (simp_all only: list_all_iff)
  moreover have "hd [0x62, 0x20AC, 0x1F600] \<noteq> (0xFEFF :: nat)" by simp
  ultimately show ?thesis using r encode_example by (intro conjI)
qed

end
